theory Spec2Isabelle
  imports Main "HOL-Library.Product_Lexorder"
begin

section \<open>Text\<close>

text \<open>
  A Python \<open>str\<close> is a sequence of Unicode code points, so a string is a list of
  code points (natural numbers); \<open>u\<close> embeds an ASCII literal.  The typographic
  apostrophe of the matcher's pattern is the single code point U+2019.
\<close>

type_synonym uchar = nat
type_synonym ustring = "uchar list"

definition u :: "string \<Rightarrow> ustring" where
  "u s = map of_char s"

text \<open>
  The classes \<open>\w\<close>, \<open>\d\<close> and the methods \<open>upper\<close> and \<open>int\<close> depend on the
  Unicode character database.  Their ASCII part is written out; their values above
  U+007F are parameters of the model, so that every theorem holds whatever the
  database says there.
\<close>

record tables =
  alnum_hi :: "uchar \<Rightarrow> bool"
  decimal_hi :: "uchar \<Rightarrow> nat option"
  upper_hi :: "uchar \<Rightarrow> ustring"

definition is_upper_ascii :: "uchar \<Rightarrow> bool" where
  "is_upper_ascii c = (65 \<le> c \<and> c \<le> 90)"

definition is_lower_ascii :: "uchar \<Rightarrow> bool" where
  "is_lower_ascii c = (97 \<le> c \<and> c \<le> 122)"

definition is_digit_ascii :: "uchar \<Rightarrow> bool" where
  "is_digit_ascii c = (48 \<le> c \<and> c \<le> 57)"

text \<open>\<open>\d\<close>: a Unicode decimal digit, with its value (what \<open>int\<close> reads).\<close>

definition decimal :: "tables \<Rightarrow> uchar \<Rightarrow> nat option" where
  "decimal T c =
     (if is_digit_ascii c then Some (c - 48)
      else if c < 128 then None
      else decimal_hi T c)"

definition is_decimal :: "tables \<Rightarrow> uchar \<Rightarrow> bool" where
  "is_decimal T c = (decimal T c \<noteq> None)"

text \<open>\<open>\w\<close>: alphanumeric or underscore.\<close>

definition is_word :: "tables \<Rightarrow> uchar \<Rightarrow> bool" where
  "is_word T c =
     (if c < 128 then is_upper_ascii c \<or> is_lower_ascii c \<or> is_digit_ascii c \<or> c = 95
      else alnum_hi T c)"

text \<open>\<open>\s\<close> and \<open>str.strip\<close>: the white space of \<open>str.isspace\<close>.\<close>

definition is_space :: "uchar \<Rightarrow> bool" where
  "is_space c =
     ((9 \<le> c \<and> c \<le> 13) \<or> (28 \<le> c \<and> c \<le> 32) \<or> c = 133 \<or> c = 160 \<or> c = 5760
      \<or> (8192 \<le> c \<and> c \<le> 8202) \<or> c = 8232 \<or> c = 8233 \<or> c = 8239 \<or> c = 8287
      \<or> c = 12288)"

definition upper :: "tables \<Rightarrow> ustring \<Rightarrow> ustring" where
  "upper T s =
     concat (map (\<lambda>c. if is_lower_ascii c then [c - 32]
                        else if c < 128 then [c] else upper_hi T c) s)"

definition strip :: "ustring \<Rightarrow> ustring" where
  "strip s = rev (dropWhile is_space (rev (dropWhile is_space s)))"

text \<open>\<open>s.replace(old, new)\<close> for a non-empty \<open>old\<close>: one pass from the left, the
  occurrences not overlapping.\<close>

fun replace :: "ustring \<Rightarrow> ustring \<Rightarrow> ustring \<Rightarrow> ustring" where
  "replace old new [] = []"
| "replace old new (c # s) =
     (if old \<noteq> [] \<and> take (length old) (c # s) = old
      then new @ replace old new (drop (length old) (c # s))
      else c # replace old new s)"

definition endswith :: "ustring \<Rightarrow> ustring \<Rightarrow> bool" where
  "endswith s suf = (length suf \<le> length s \<and> drop (length s - length suf) s = suf)"

text \<open>\<open>s.split("_")\<close>: the fields between the underscores, never an empty list.\<close>

fun split_us :: "ustring \<Rightarrow> ustring list" where
  "split_us [] = [[]]"
| "split_us (c # s) =
     (if c = 95 then [] # split_us s
      else (case split_us s of f # fs \<Rightarrow> (c # f) # fs | [] \<Rightarrow> [[c]]))"

section \<open>Regular expressions\<close>

text \<open>
  The fragment of Python's \<open>re\<close> the program uses, with the backtracking order of the
  engine: \<open>ends\<close> lists, best first, the positions at which a match of the expression
  that starts at a position can end.  A position is the character before it (if any)
  and the text after it; \<open>\b\<close> needs both.
\<close>

type_synonym position = "uchar option \<times> ustring"

datatype regex =
    Eps
  | Cls "uchar \<Rightarrow> bool"
  | Seq regex regex
  | Alt regex regex
  | Rep regex nat nat
  | StarC "uchar \<Rightarrow> bool"
  | WordB
  | NotAhead regex

text \<open>Greedy bounded repetition \<open>r{lo,hi}\<close>: at most \<open>hi\<close> rounds, the longer
  matches first.\<close>

primrec rep :: "(position \<Rightarrow> position list) \<Rightarrow> nat \<Rightarrow> nat \<Rightarrow> position \<Rightarrow> position list" where
  "rep f lo 0 p = (if lo = 0 then [p] else [])"
| "rep f lo (Suc hi) p =
     concat (map (rep f (lo - 1) hi) (f p)) @ (if lo = 0 then [p] else [])"

text \<open>Greedy \<open>[class]*\<close>: the longest run first.\<close>

primrec star_ends :: "(uchar \<Rightarrow> bool) \<Rightarrow> uchar option \<Rightarrow> ustring \<Rightarrow> position list" where
  "star_ends P b [] = [(b, [])]"
| "star_ends P b (c # s) = (if P c then star_ends P (Some c) s else []) @ [(b, c # s)]"

definition at_boundary :: "tables \<Rightarrow> position \<Rightarrow> bool" where
  "at_boundary T p =
     ((case fst p of None \<Rightarrow> False | Some c \<Rightarrow> is_word T c)
      \<noteq> (case snd p of [] \<Rightarrow> False | c # _ \<Rightarrow> is_word T c))"

primrec ends :: "tables \<Rightarrow> regex \<Rightarrow> position \<Rightarrow> position list" where
  "ends T Eps = (\<lambda>p. [p])"
| "ends T (Cls P) =
     (\<lambda>p. case snd p of [] \<Rightarrow> [] | c # s \<Rightarrow> if P c then [(Some c, s)] else [])"
| "ends T (Seq r1 r2) = (\<lambda>p. concat (map (ends T r2) (ends T r1 p)))"
| "ends T (Alt r1 r2) = (\<lambda>p. ends T r1 p @ ends T r2 p)"
| "ends T (Rep r lo hi) = rep (ends T r) lo hi"
| "ends T (StarC P) = (\<lambda>p. star_ends P (fst p) (snd p))"
| "ends T WordB = (\<lambda>p. if at_boundary T p then [p] else [])"
| "ends T (NotAhead r) = (\<lambda>p. if ends T r p = [] then [p] else [])"

text \<open>\<open>re.search\<close>: the leftmost start, then the engine's first end; the result is the
  matched text (\<open>group(0)\<close>).\<close>

fun search_from :: "tables \<Rightarrow> regex \<Rightarrow> uchar option \<Rightarrow> ustring \<Rightarrow> ustring option" where
  "search_from T r b s =
     (case ends T r (b, s) of
        e # _ \<Rightarrow> Some (take (length s - length (snd e)) s)
      | [] \<Rightarrow> (case s of [] \<Rightarrow> None | c # t \<Rightarrow> search_from T r (Some c) t))"

definition search :: "tables \<Rightarrow> regex \<Rightarrow> ustring \<Rightarrow> ustring option" where
  "search T r s = search_from T r None s"

text \<open>A literal text, as \<open>re.escape\<close> makes of it.\<close>

definition lit :: "ustring \<Rightarrow> regex" where
  "lit s = foldr (\<lambda>c r. Seq (Cls (\<lambda>x. x = c)) r) s Eps"

section \<open>The timetable matcher\<close>

text \<open>
  Lines 71 and 72: \<open>subject_code = course.split("_")[0]\<close> and
  \<open>div_code = course.split("_")[1] if "_" in course else ""\<close>.
\<close>

definition subject_code :: "ustring \<Rightarrow> ustring" where
  "subject_code course = (case split_us course of f # _ \<Rightarrow> f | [] \<Rightarrow> [])"

definition div_code :: "ustring \<Rightarrow> ustring" where
  "div_code course =
     (if 95 \<in> set course then (case split_us course of _ # d # _ \<Rightarrow> d | _ \<Rightarrow> []) else [])"

text \<open>
  The division code enters the pattern as it is, not through \<open>re.escape\<close>, so the
  engine reads it as a regular expression.  \<open>div_regex\<close> reads the division codes in
  which every character is an ordinary one or the dot (any character but a newline);
  for a code with another special character of \<open>re\<close> the model gives no pattern
  (\<open>None\<close>).
\<close>

text \<open>The special characters of \<open>re\<close>: \<^verbatim>\<open>. ^ $ * + ? { } [ ] \ | ( )\<close>.\<close>

definition re_special :: "uchar \<Rightarrow> bool" where
  "re_special c = (c \<in> set [46, 94, 36, 42, 43, 63, 123, 125, 91, 93, 92, 124, 40, 41])"

fun div_regex :: "ustring \<Rightarrow> regex option" where
  "div_regex [] = Some Eps"
| "div_regex (c # s) =
     (case div_regex s of
        None \<Rightarrow> None
      | Some r \<Rightarrow>
          if c = 46 then Some (Seq (Cls (\<lambda>x. x \<noteq> 10)) r)
          else if re_special c then None
          else Some (Seq (Cls (\<lambda>x. x = c)) r))"

text \<open>
  Lines 75 to 78.  With a division: \<open>\bSUBJECT\(['\<dots>]?\s*DIV\)\<close>, the class holding
  the straight apostrophe and U+2019.  Without:  \<open>\bSUBJECT(?!\()\<close>.
\<close>

definition pattern :: "ustring \<Rightarrow> ustring \<Rightarrow> regex option" where
  "pattern subj dv =
     (if dv \<noteq> [] then
        (case div_regex dv of
           None \<Rightarrow> None
         | Some d \<Rightarrow>
             Some (Seq WordB (Seq (lit subj) (Seq (Cls (\<lambda>x. x = 40))
                    (Seq (Rep (Cls (\<lambda>x. x = 39 \<or> x = 8217)) 0 1)
                      (Seq (StarC is_space) (Seq d (Cls (\<lambda>x. x = 41)))))))))
      else Some (Seq WordB (Seq (lit subj) (NotAhead (Cls (\<lambda>x. x = 40))))))"

text \<open>Line 80, \<open>re.search(pattern, cell)\<close>, for one enrolled course.\<close>

definition cell_matches :: "tables \<Rightarrow> ustring \<Rightarrow> ustring \<Rightarrow> bool option" where
  "cell_matches T cell course =
     (case pattern (subject_code course) (div_code course) of
        None \<Rightarrow> None
      | Some r \<Rightarrow> Some (search T r cell \<noteq> None))"

section \<open>The start time of a session\<close>

record time =
  hour :: nat
  minute :: nat

text \<open>
  \<open>datetime.strptime\<close> turns the format into a regular expression, matches it at the
  start of the text without regard to case, and raises \<open>ValueError\<close> when it does not
  match or when text remains after the match; a format without white space allows none.
  The three directives the program uses are (in the C locale)
  \<open>%I = 1[0-2]|0[1-9]|[1-9]\<close>, \<open>%M = [0-5]\d|\d\<close> and \<open>%p = am|pm\<close>.
  Each parser lists, in the order of the engine, the values it can read and the text left.
\<close>

definition dir_I :: "ustring \<Rightarrow> (nat \<times> ustring) list" where
  "dir_I s =
     (case s of
        a # b # t \<Rightarrow>
          (if a = 49 \<and> 48 \<le> b \<and> b \<le> 50 then [(10 + (b - 48), t)] else [])
          @ (if a = 48 \<and> 49 \<le> b \<and> b \<le> 57 then [(b - 48, t)] else [])
          @ (if 49 \<le> a \<and> a \<le> 57 then [(a - 48, b # t)] else [])
      | [a] \<Rightarrow> (if 49 \<le> a \<and> a \<le> 57 then [(a - 48, [])] else [])
      | [] \<Rightarrow> [])"

definition dir_M :: "tables \<Rightarrow> ustring \<Rightarrow> (nat \<times> ustring) list" where
  "dir_M T s =
     (case s of
        a # b # t \<Rightarrow>
          (case decimal T b of
             Some v \<Rightarrow> if 48 \<le> a \<and> a \<le> 53 then [(10 * (a - 48) + v, t)] else []
           | None \<Rightarrow> [])
          @ (case decimal T a of Some v \<Rightarrow> [(v, b # t)] | None \<Rightarrow> [])
      | [a] \<Rightarrow> (case decimal T a of Some v \<Rightarrow> [(v, [])] | None \<Rightarrow> [])
      | [] \<Rightarrow> [])"

text \<open>\<open>%p\<close>: \<open>True\<close> for pm.\<close>

definition dir_p :: "ustring \<Rightarrow> (bool \<times> ustring) list" where
  "dir_p s =
     (case s of
        a # b # t \<Rightarrow>
          (if (a = 97 \<or> a = 65) \<and> (b = 109 \<or> b = 77) then [(False, t)] else [])
          @ (if (a = 112 \<or> a = 80) \<and> (b = 109 \<or> b = 77) then [(True, t)] else [])
      | _ \<Rightarrow> [])"

definition colon :: "ustring \<Rightarrow> ustring list" where
  "colon s = (case s of c # t \<Rightarrow> if c = 58 then [t] else [] | [] \<Rightarrow> [])"

text \<open>The hour of a 12-hour clock: 12 am is 0, and pm adds 12 except to 12.\<close>

definition hour24 :: "nat \<Rightarrow> bool \<Rightarrow> nat" where
  "hour24 h pm = (if pm then (if h \<noteq> 12 then h + 12 else h) else (if h = 12 then 0 else h))"

text \<open>\<open>datetime.strptime(time_str, "%I:%M%p").time()\<close>; \<open>None\<close> is the \<open>ValueError\<close>.\<close>

definition strptime_IMp :: "tables \<Rightarrow> ustring \<Rightarrow> time option" where
  "strptime_IMp T s =
     (case concat (map (\<lambda>(h, r1). concat (map (\<lambda>r2. concat (map (\<lambda>(m, r3).
             map (\<lambda>(pm, r4). (h, m, pm, r4)) (dir_p r3)) (dir_M T r2))) (colon r1))) (dir_I s)) of
        [] \<Rightarrow> None
      | (h, m, pm, r) # _ \<Rightarrow>
          if r \<noteq> [] then None else Some \<lparr>hour = hour24 h pm, minute = m\<rparr>)"

text \<open>\<open>datetime.strptime(time_str, "%I%p").time()\<close>.\<close>

definition strptime_Ip :: "ustring \<Rightarrow> time option" where
  "strptime_Ip s =
     (case concat (map (\<lambda>(h, r1). map (\<lambda>(pm, r2). (h, pm, r2)) (dir_p r1)) (dir_I s)) of
        [] \<Rightarrow> None
      | (h, pm, r) # _ \<Rightarrow>
          if r \<noteq> [] then None else Some \<lparr>hour = hour24 h pm, minute = 0\<rparr>)"

text \<open>Line 41: \<open>(\d{1,2}[:.]?\d{0,2}\s*[AP]M)\<close>, without regard to case.\<close>

definition time_token :: "tables \<Rightarrow> regex" where
  "time_token T =
     Seq (Rep (Cls (is_decimal T)) 1 2)
       (Seq (Rep (Cls (\<lambda>x. x = 58 \<or> x = 46)) 0 1)
         (Seq (Rep (Cls (is_decimal T)) 0 2)
           (Seq (StarC is_space)
             (Seq (Cls (\<lambda>x. x = 65 \<or> x = 80 \<or> x = 97 \<or> x = 112))
                  (Cls (\<lambda>x. x = 77 \<or> x = 109))))))"

text \<open>Lines 39 to 51.  The bare \<open>except\<close> clauses turn every failure of \<open>strptime\<close>
  into the next attempt, and at last into \<open>None\<close>.\<close>

definition extract_start_time :: "tables \<Rightarrow> ustring \<Rightarrow> time option" where
  "extract_start_time T session =
     (case search T (time_token T) (strip (replace [10] [32] session)) of
        None \<Rightarrow> None
      | Some g \<Rightarrow>
          (let time_str = upper T (replace [46] [58] g) in
           case strptime_IMp T time_str of
             Some t \<Rightarrow> Some t
           | None \<Rightarrow> strptime_Ip time_str))"

section \<open>The roster resolver\<close>

text \<open>
  \<open>os.listdir\<close> gives the names of the roster directory in some order; the model takes
  the listing as a list of names with what each file holds.  \<open>pd.read_excel\<close> raises on
  a file that is no workbook and otherwise gives the columns of the sheet, each under
  its header.  The cells are of a type \<open>'c\<close> with \<open>str_of\<close> their text
  (\<open>astype(str)\<close>, \<open>str\<close>).
\<close>

datatype error = Read_Error | Key_Error | Value_Error

datatype 'c workbook_file = Unreadable | Workbook "(ustring \<times> 'c list) list"

definition read_excel :: "'c workbook_file \<Rightarrow> error + (ustring \<times> 'c list) list" where
  "read_excel f = (case f of Unreadable \<Rightarrow> Inl Read_Error | Workbook df \<Rightarrow> Inr df)"

definition xlsx :: ustring where
  "xlsx = u ''.xlsx''"

definition roll_column :: ustring where
  "roll_column = u ''Roll No.''"

text \<open>Line 33: the column is there and holds the roll number.\<close>

definition enrolled_in :: "('c \<Rightarrow> ustring) \<Rightarrow> ustring \<Rightarrow> (ustring \<times> 'c list) list \<Rightarrow> bool" where
  "enrolled_in str_of roll_no df =
     (case map_of df roll_column of
        None \<Rightarrow> False
      | Some col \<Rightarrow> roll_no \<in> set (map str_of col))"

text \<open>Lines 30 to 35, the loop over the listing with \<open>student_courses\<close> as it grows.\<close>

fun courses_loop ::
  "('c \<Rightarrow> ustring) \<Rightarrow> ustring \<Rightarrow> ustring list \<Rightarrow> (ustring \<times> 'c workbook_file) list \<Rightarrow> error + ustring list"
where
  "courses_loop str_of roll_no student_courses [] = Inr student_courses"
| "courses_loop str_of roll_no student_courses ((file, content) # rest) =
     (if endswith file xlsx then
        (case read_excel content of
           Inl e \<Rightarrow> Inl e
         | Inr df \<Rightarrow>
             if enrolled_in str_of roll_no df
             then courses_loop str_of roll_no (student_courses @ [replace xlsx [] file]) rest
             else courses_loop str_of roll_no student_courses rest)
      else courses_loop str_of roll_no student_courses rest)"

definition get_student_courses ::
  "('c \<Rightarrow> ustring) \<Rightarrow> (ustring \<times> 'c workbook_file) list \<Rightarrow> ustring \<Rightarrow> error + ustring list"
where
  "get_student_courses str_of listing roll_no = courses_loop str_of roll_no [] listing"

text \<open>A file that \<open>read_excel\<close> reads and that has no roll-number column.\<close>

definition lacks_roll_column :: "ustring \<times> 'c workbook_file \<Rightarrow> bool" where
  "lacks_roll_column f =
     (case snd f of Unreadable \<Rightarrow> False | Workbook df \<Rightarrow> roll_column \<notin> set (map fst df))"

text \<open>The name without its last five characters: the stem of a name that ends
  in \<open>.xlsx\<close>.\<close>

definition stem :: "ustring \<Rightarrow> ustring" where
  "stem file = take (length file - length xlsx) file"

section \<open>The matches of a week\<close>

text \<open>
  A row of the weekly timetable: its \<open>Date\<close>, its \<open>Day\<close> and, from the third column
  on, the session columns with the row's cell under each.
\<close>

record ('d, 'c) week_row =
  w_Date :: 'd
  w_Day :: ustring
  w_sessions :: "(ustring \<times> 'c) list"

record 'd raw_match =
  r_Date :: 'd
  r_Day :: ustring
  r_Session :: ustring
  r_Subject :: ustring
  r_Div :: ustring
  r_Cell_Info :: ustring

text \<open>Lines 66 to 88.  The result is \<open>None\<close> when a pattern is outside the fragment
  of \<open>div_regex\<close>.\<close>

definition match_cell ::
  "tables \<Rightarrow> ('c \<Rightarrow> ustring) \<Rightarrow> ('d, 'c) week_row \<Rightarrow> ustring \<times> 'c \<Rightarrow> ustring
     \<Rightarrow> 'd raw_match list option"
where
  "match_cell T str_of row sc course =
     (case cell_matches T (str_of (snd sc)) course of
        None \<Rightarrow> None
      | Some b \<Rightarrow>
          Some (if b then
                  [\<lparr>r_Date = w_Date row, r_Day = w_Day row,
                    r_Session = strip (replace [10] [32] (fst sc)),
                    r_Subject = subject_code course, r_Div = div_code course,
                    r_Cell_Info = str_of (snd sc)\<rparr>]
                else []))"

definition results ::
  "tables \<Rightarrow> ('c \<Rightarrow> ustring) \<Rightarrow> ('d, 'c) week_row list \<Rightarrow> ustring list \<Rightarrow> 'd raw_match list option"
where
  "results T str_of weekly_df enrolled_courses =
     map_option concat
       (those (concat (map (\<lambda>row. concat (map (\<lambda>sc.
          map (match_cell T str_of row sc) enrolled_courses) (w_sessions row))) weekly_df)))"

section \<open>The schedule assembler\<close>

text \<open>
  A row of the master course table, which is taken to have its three columns.  A cell
  of \<open>Abbre.\<close> is a text, or \<open>None\<close> for an empty cell or a number.
\<close>

record master_row =
  m_Abbre :: "ustring option"
  m_Faculty :: "ustring option"
  m_Venue :: "ustring option"

record 'd entry =
  Date :: 'd
  Day :: ustring
  Session :: ustring
  Subject :: ustring
  Div :: ustring
  Faculty :: "ustring option"
  Venue :: "ustring option"

record 'd timed_entry = "'d entry" +
  Start_Time :: "time option"

definition enrich :: "'d raw_match \<Rightarrow> ustring option \<Rightarrow> ustring option \<Rightarrow> 'd entry" where
  "enrich m f v =
     \<lparr>Date = r_Date m, Day = r_Day m, Session = r_Session m, Subject = r_Subject m,
      Div = r_Div m, Faculty = f, Venue = v\<rparr>"

text \<open>
  The rows of a left join, with the columns line 100 keeps: the rows of the left table
  in their order, each once for every master row whose \<open>Abbre.\<close> is its subject, these
  in the order of the master table, or once with nothing for \<open>Faculty\<close> and \<open>Venue\<close>
  when there is none.
\<close>

definition merge_row :: "master_row list \<Rightarrow> 'd raw_match \<Rightarrow> 'd entry list" where
  "merge_row master_df m =
     (case filter (\<lambda>r. m_Abbre r = Some (r_Subject m)) master_df of
        [] \<Rightarrow> [enrich m None None]
      | rs \<Rightarrow> map (\<lambda>r. enrich m (m_Faculty r) (m_Venue r)) rs)"

definition join_rows :: "'d raw_match list \<Rightarrow> master_row list \<Rightarrow> 'd entry list" where
  "join_rows result_df master_df = concat (map (merge_row master_df) result_df)"

text \<open>
  Lines 95 to 100, \<open>result_df.merge(master_df, left_on="Subject", right_on="Abbre.",
  how="left")\<close>.  Before it joins, \<open>merge\<close> looks at the two key columns.  A table made
  of no rows (\<open>pd.DataFrame([])\<close>) has no column \<open>Subject\<close>, which is a \<open>KeyError\<close>; the
  script joins only a table with rows (line 92).  When both tables have rows and the
  column \<open>Abbre.\<close> holds no text at all, its type is numeric and the join of the text
  column \<open>Subject\<close> with it is refused with a \<open>ValueError\<close>.
\<close>

definition merge_left :: "'d raw_match list \<Rightarrow> master_row list \<Rightarrow> error + 'd entry list" where
  "merge_left result_df master_df =
     (if result_df = [] then Inl Key_Error
      else if master_df \<noteq> [] \<and> list_all (\<lambda>r. m_Abbre r = None) master_df then Inl Value_Error
      else Inr (join_rows result_df master_df))"

text \<open>Line 102, \<open>drop_duplicates(subset=...)\<close>: the first row of every key stays.\<close>

fun drop_duplicates :: "('a \<Rightarrow> 'k) \<Rightarrow> 'a list \<Rightarrow> 'a list" where
  "drop_duplicates k [] = []"
| "drop_duplicates k (x # xs) = x # drop_duplicates k (filter (\<lambda>y. k y \<noteq> k x) xs)"

definition key :: "('d, 'z) entry_scheme \<Rightarrow> 'd \<times> ustring \<times> ustring \<times> ustring \<times> ustring" where
  "key e = (Date e, Day e, Session e, Subject e, Div e)"

definition raw_key :: "'d raw_match \<Rightarrow> 'd \<times> ustring \<times> ustring \<times> ustring \<times> ustring" where
  "raw_key m = (r_Date m, r_Day m, r_Session m, r_Subject m, r_Div m)"

text \<open>
  Lines 105 and 106.  \<open>pd.to_datetime(errors="coerce")\<close> is the parameter
  \<open>to_datetime\<close>: an instant (an integer) or \<open>None\<close> for \<open>NaT\<close>.
\<close>

definition with_start_time ::
  "tables \<Rightarrow> ('d \<Rightarrow> int option) \<Rightarrow> 'd entry \<Rightarrow> (int option) timed_entry" where
  "with_start_time T to_datetime e =
     \<lparr>Date = to_datetime (Date e), Day = Day e, Session = Session e, Subject = Subject e,
      Div = Div e, Faculty = Faculty e, Venue = Venue e,
      Start_Time = extract_start_time T (Session e)\<rparr>"

text \<open>
  Line 107, \<open>sort_values(by=["Date", "Start_Time"])\<close>: a stable sort on the two
  columns, the missing values of each last.
\<close>

definition sort_by :: "(int option) timed_entry \<Rightarrow> (nat \<times> int) \<times> (nat \<times> nat \<times> nat)" where
  "sort_by e =
     ((case Date e of None \<Rightarrow> (1, 0) | Some d \<Rightarrow> (0, d)),
      (case Start_Time e of None \<Rightarrow> (1, 0, 0) | Some t \<Rightarrow> (0, hour t, minute t)))"

text \<open>Line 111, \<open>final_df["Day"].str[:3]\<close>.\<close>

definition abbreviate_day :: "(int option) timed_entry \<Rightarrow> (int option) timed_entry" where
  "abbreviate_day e = e\<lparr>Day := take 3 (Day e)\<rparr>"

text \<open>Lines 95 to 111: the join, or its error, and then lines 102, 105 to 107 and 111.\<close>

definition final_df ::
  "tables \<Rightarrow> ('d \<Rightarrow> int option) \<Rightarrow> 'd raw_match list \<Rightarrow> master_row list
     \<Rightarrow> error + (int option) timed_entry list" where
  "final_df T to_datetime result_df master_df =
     (case merge_left result_df master_df of
        Inl e \<Rightarrow> Inl e
      | Inr merged \<Rightarrow>
          Inr (map abbreviate_day (sort_key sort_by
                (map (with_start_time T to_datetime) (drop_duplicates key merged)))))"

text \<open>The tables of lines 102 and 111 over the rows of the join, for the proofs.\<close>

definition deduped :: "'d raw_match list \<Rightarrow> master_row list \<Rightarrow> 'd entry list" where
  "deduped result_df master_df = drop_duplicates key (join_rows result_df master_df)"

definition final_rows ::
  "tables \<Rightarrow> ('d \<Rightarrow> int option) \<Rightarrow> 'd raw_match list \<Rightarrow> master_row list
     \<Rightarrow> (int option) timed_entry list" where
  "final_rows T to_datetime result_df master_df =
     map abbreviate_day (sort_key sort_by
       (map (with_start_time T to_datetime) (deduped result_df master_df)))"

text \<open>
  What a lookup shows (lines 56 to 111): nothing while no roll number is entered
  (line 56), a warning, an error message or the schedule; a file that cannot be read
  and a join that is refused end the lookup with their error.
\<close>

datatype 'a outcome = Nothing_Shown | No_Courses_Found | No_Matching_Classes | Schedule 'a

definition lookup ::
  "tables \<Rightarrow> ('c \<Rightarrow> ustring) \<Rightarrow> ('d \<Rightarrow> int option) \<Rightarrow> (ustring \<times> 'c workbook_file) list
     \<Rightarrow> ('d, 'c) week_row list \<Rightarrow> master_row list \<Rightarrow> ustring
     \<Rightarrow> error + ((int option) timed_entry list) outcome option" where
  "lookup T str_of to_datetime listing weekly_df master_df roll_no =
     (if roll_no = [] then Inr (Some Nothing_Shown)
      else
        (case get_student_courses str_of listing roll_no of
           Inl e \<Rightarrow> Inl e
         | Inr enrolled_courses \<Rightarrow>
             if enrolled_courses = [] then Inr (Some No_Courses_Found)
             else (case results T str_of weekly_df enrolled_courses of
                     None \<Rightarrow> Inr None
                   | Some result_df \<Rightarrow>
                       if result_df = [] then Inr (Some No_Matching_Classes)
                       else (case final_df T to_datetime result_df master_df of
                               Inl e \<Rightarrow> Inl e
                             | Inr table \<Rightarrow> Inr (Some (Schedule table))))))"

text \<open>Tables for the examples: nothing above U+007F is a letter or a digit.\<close>

definition ascii_tables :: tables where
  "ascii_tables = \<lparr>alnum_hi = (\<lambda>c. False), decimal_hi = (\<lambda>c. None), upper_hi = (\<lambda>c. [c])\<rparr>"

text \<open>A match of the course \<open>course\<close> on the day \<open>d\<close>, for the examples.\<close>

definition example_match :: "int \<Rightarrow> string \<Rightarrow> string \<Rightarrow> string \<Rightarrow> int raw_match" where
  "example_match d day_name session course =
     \<lparr>r_Date = d, r_Day = u day_name, r_Session = u session,
      r_Subject = subject_code (u course), r_Div = div_code (u course),
      r_Cell_Info = u course\<rparr>"

section \<open>Evaluation\<close>

lemma rep_1:
  "rep f lo (Suc 0) p = concat (map (rep f (lo - 1) 0) (f p)) @ (if lo = 0 then [p] else [])"
  by simp

lemma rep_2:
  "rep f lo 2 p = concat (map (rep f (lo - 1) (Suc 0)) (f p)) @ (if lo = 0 then [p] else [])"
  by (simp add: numeral_2_eq_2)

lemmas text_eval = u_def strip_def is_space_def is_decimal_def decimal_def is_digit_ascii_def
  is_upper_ascii_def is_lower_ascii_def is_word_def upper_def endswith_def xlsx_def roll_column_def

lemmas match_eval = cell_matches_def pattern_def subject_code_def div_code_def search_def lit_def
  at_boundary_def re_special_def rep_1 rep_2

lemmas time_eval = extract_start_time_def search_def time_token_def strptime_IMp_def
  strptime_Ip_def dir_I_def dir_M_def dir_p_def colon_def hour24_def rep_1 rep_2

section \<open>Matching a cell\<close>

text \<open>
  Claim C1.  For a course without a division the pattern is \<open>\bSUBJECT(?!\()\<close>: the
  subject code must start at a word boundary and must not be followed by an opening
  parenthesis, and nothing else is asked of what follows it.  So the cell \<open>CS101\<close>
  matches the course \<open>CS101\<close> and the cell \<open>CS101(A)\<close> does not, as the claim says,
  but the cell \<open>CS1010\<close> matches too, where the claim says it does not.
\<close>

theorem no_division_examples:
  "cell_matches T (u ''CS101'') (u ''CS101'') = Some True
   \<and> cell_matches T (u ''CS1010'') (u ''CS101'') = Some True
   \<and> cell_matches T (u ''CS101(A)'') (u ''CS101'') = Some False"
  by (simp add: text_eval match_eval)

text \<open>
  Claim C3.  For a course with a division the pattern is
  \<open>\bSUBJECT\(['\<dots>]?\s*DIV\)\<close> with the division code as a regular expression of its
  own.  The cell \<open>CS101(A)\<close> matches the course \<open>CS101_A\<close> and not \<open>CS101_B\<close>, as
  the claim says; but for the course \<open>CS101_A.1\<close> the cell \<open>CS101(AX1)\<close> matches,
  which does not contain the division code \<open>A.1\<close>.
\<close>

theorem division_examples:
  "cell_matches T (u ''CS101(A)'') (u ''CS101_A'') = Some True
   \<and> cell_matches T (u ''CS101(A)'') (u ''CS101_B'') = Some False
   \<and> cell_matches T (u ''CS101(AX1)'') (u ''CS101_A.1'') = Some True"
  by (simp add: text_eval match_eval)

section \<open>Start times\<close>

text \<open>
  Claim C2.  On \<open>10:00-11:00 AM\<close> the token found is \<open>11:00 AM\<close>, on \<open>2 PM\<close> it is
  \<open>2 PM\<close>; neither format of \<open>strptime\<close> allows the space before the meridiem, so
  both give nothing, where the claim says 10:00 and 14:00.  \<open>Lunch Break\<close> has no
  token and gives nothing, as the claim says.
\<close>

theorem extract_start_time_examples:
  "extract_start_time T (u ''10:00-11:00 AM'') = None
   \<and> extract_start_time T (u ''2 PM'') = None
   \<and> extract_start_time T (u ''Lunch Break'') = None"
  by (simp add: text_eval time_eval)

text \<open>Without the space the same labels are read.\<close>

lemma extract_start_time_no_space:
  "extract_start_time T (u ''10:00AM-11:00AM'') = Some \<lparr>hour = 10, minute = 0\<rparr>
   \<and> extract_start_time T (u ''2PM'') = Some \<lparr>hour = 14, minute = 0\<rparr>"
  by (simp add: text_eval time_eval)

section \<open>Course identifiers\<close>

lemma split_us_hd: "split_us s = takeWhile (\<lambda>c. c \<noteq> 95) s # tl (split_us s)"
  by (induction s) (auto split: list.splits)

lemma subject_code_takeWhile: "subject_code course = takeWhile (\<lambda>c. c \<noteq> 95) course"
  using split_us_hd [of course] by (cases "split_us course") (simp_all add: subject_code_def)

text \<open>
  Claim C9, as the code has it: the subject code is the text of the stem before its
  first underscore, and it is empty exactly when the stem is empty or begins with an
  underscore.
\<close>

theorem subject_code_empty_iff:
  "subject_code course = takeWhile (\<lambda>c. c \<noteq> 95) course
   \<and> (subject_code course = [] \<longleftrightarrow> course = [] \<or> hd course = 95)"
  by (cases course) (auto simp: subject_code_takeWhile)

theorem subject_code_empty_iff_witness:
  "subject_code (u ''CS101_A'') = u ''CS101'' \<and> subject_code (u ''CS101_A'') \<noteq> []"
  using subject_code_empty_iff [of "u ''CS101_A''"] by (simp add: u_def)

text \<open>The roster file \<open>_A.xlsx\<close> gives the course \<open>_A\<close>, whose subject code is empty.\<close>

theorem subject_code_can_be_empty:
  "get_student_courses id [(u ''_A.xlsx'', Workbook [(roll_column, [u ''21BCM014''])])]
       (u ''21BCM014'') = Inr [u ''_A'']
   \<and> subject_code (u ''_A'') = []"
  by (simp add: text_eval get_student_courses_def read_excel_def enrolled_in_def subject_code_def)

section \<open>The roster directory\<close>

text \<open>
  Claim C10.  \<open>file.replace(".xlsx", "")\<close> removes every occurrence of \<open>.xlsx\<close>, not
  only the suffix: the roster file \<open>CS101_A.xlsx.xlsx\<close> contributes \<open>CS101_A\<close>, and
  its stem is \<open>CS101_A.xlsx\<close>.
\<close>

theorem replace_is_not_stem:
  "get_student_courses id [(u ''CS101_A.xlsx.xlsx'', Workbook [(roll_column, [u ''21BCM014''])])]
       (u ''21BCM014'') = Inr [u ''CS101_A'']
   \<and> stem (u ''CS101_A.xlsx.xlsx'') = u ''CS101_A.xlsx''"
  by (simp add: text_eval get_student_courses_def read_excel_def enrolled_in_def stem_def)

text \<open>The files whose name does not end in \<open>.xlsx\<close> are never read: the result is
  the result over the listing without them, whatever they hold.\<close>

lemma courses_loop_only_xlsx:
  "courses_loop str_of roll_no acc (filter (\<lambda>f. endswith (fst f) xlsx) listing)
     = courses_loop str_of roll_no acc listing"
proof (induction listing arbitrary: acc)
  case Nil
  show ?case by simp
next
  case (Cons f listing)
  obtain name content where f: "f = (name, content)" by (cases f)
  show ?case
    by (simp add: f Cons.IH split: sum.splits)
qed

lemma lacks_not_enrolled:
  assumes "lacks_roll_column (name, Workbook df)"
  shows "\<not> enrolled_in str_of roll_no df"
proof -
  from assms have "roll_column \<notin> fst ` set df"
    by (simp add: lacks_roll_column_def)
  then have "map_of df roll_column = None"
    by (simp add: map_of_eq_None_iff)
  then show ?thesis
    by (simp add: enrolled_in_def)
qed

lemma courses_loop_skip:
  "courses_loop str_of roll_no acc (filter (\<lambda>f. \<not> lacks_roll_column f) listing)
     = courses_loop str_of roll_no acc listing"
proof (induction listing arbitrary: acc)
  case Nil
  show ?case by simp
next
  case (Cons f listing)
  obtain name content where f: "f = (name, content)" by (cases f)
  show ?case
  proof (cases "lacks_roll_column f")
    case True
    then obtain df where c: "content = Workbook df"
      by (cases content) (auto simp: f lacks_roll_column_def)
    from True have "\<not> enrolled_in str_of roll_no df"
      using lacks_not_enrolled f c by blast
    with True show ?thesis
      by (simp add: f c Cons.IH read_excel_def)
  next
    case False
    then show ?thesis
      by (simp add: f Cons.IH split: sum.splits)
  qed
qed

lemma courses_loop_all_lack:
  assumes "\<forall>f\<in>set listing. lacks_roll_column f"
  shows "courses_loop str_of roll_no acc listing = Inr acc"
proof -
  from assms have "filter (\<lambda>f. \<not> lacks_roll_column f) listing = []"
    by (simp add: filter_empty_conv)
  then show ?thesis
    using courses_loop_skip [of str_of roll_no acc listing] by simp
qed

text \<open>
  Claim C8.  The result over a listing is the result over the listing without the
  files that have no roll-number column; when every file is such a file the result
  is the empty list, not an error; and for a roll number that was entered (line 56)
  the lookup answers an empty result with its warning.
\<close>

theorem skips_files_without_roll_column:
  "get_student_courses str_of listing roll_no
      = get_student_courses str_of (filter (\<lambda>f. \<not> lacks_roll_column f) listing) roll_no
   \<and> ((\<forall>f\<in>set listing. lacks_roll_column f) \<longrightarrow>
        get_student_courses str_of listing roll_no = Inr [])
   \<and> (roll_no \<noteq> [] \<and> get_student_courses str_of listing roll_no = Inr [] \<longrightarrow>
        lookup T str_of to_datetime listing weekly_df master_df roll_no
          = Inr (Some No_Courses_Found))"
  by (simp add: get_student_courses_def courses_loop_skip courses_loop_all_lack lookup_def)

theorem skips_files_without_roll_column_witness:
  "lacks_roll_column (u ''CS101_A.xlsx'', Workbook [(u ''Name'', [u ''Asha''])])
   \<and> u ''21BCM014'' \<noteq> []
   \<and> get_student_courses id [(u ''CS101_A.xlsx'', Workbook [(u ''Name'', [u ''Asha''])])]
        (u ''21BCM014'') = Inr []
   \<and> lookup ascii_tables id (Some :: int \<Rightarrow> int option)
        [(u ''CS101_A.xlsx'', Workbook [(u ''Name'', [u ''Asha''])])] [] [] (u ''21BCM014'')
      = Inr (Some No_Courses_Found)"
proof -
  let ?f = "(u ''CS101_A.xlsx'', Workbook [(u ''Name'', [u ''Asha''])])"
  note inst = skips_files_without_roll_column
      [of id "[?f]" "u ''21BCM014''" ascii_tables "Some :: int \<Rightarrow> int option" "[]" "[]"]
  have h: "lacks_roll_column ?f"
    by (simp add: lacks_roll_column_def text_eval)
  have r: "u ''21BCM014'' \<noteq> []"
    by (simp add: u_def)
  from h have "\<forall>f\<in>set [?f]. lacks_roll_column f"
    by simp
  with inst have e: "get_student_courses id [?f] (u ''21BCM014'') = Inr []"
    by blast
  with inst r have "lookup ascii_tables id (Some :: int \<Rightarrow> int option) [?f] [] []
      (u ''21BCM014'') = Inr (Some No_Courses_Found)"
    by blast
  with h r e show ?thesis
    by blast
qed

section \<open>Deduplication and the left join\<close>

lemma dd_subset: "set (drop_duplicates k xs) \<subseteq> set xs"
  by (induction k xs rule: drop_duplicates.induct) auto

lemma dd_keys: "k ` set (drop_duplicates k xs) = k ` set xs"
  by (induction k xs rule: drop_duplicates.induct) auto

lemma dd_distinct: "distinct (map k (drop_duplicates k xs))"
proof (induction k xs rule: drop_duplicates.induct)
  case (1 k)
  show ?case by simp
next
  case (2 k x xs)
  have "k x \<notin> k ` set (drop_duplicates k (filter (\<lambda>y. k y \<noteq> k x) xs))"
    by (auto simp: dd_keys)
  with 2 show ?case by simp
qed

lemma dd_id: "distinct (map k xs) \<Longrightarrow> drop_duplicates k xs = xs"
proof (induction xs)
  case Nil
  show ?case by simp
next
  case (Cons x xs)
  from Cons.prems have "k x \<notin> k ` set xs"
    by simp
  then have "\<forall>y\<in>set xs. k y \<noteq> k x"
    by (metis image_eqI)
  then have "filter (\<lambda>y. k y \<noteq> k x) xs = xs"
    by (simp add: filter_id_conv)
  with Cons show ?case by simp
qed

lemma dd_length: "length (drop_duplicates k xs) = card (k ` set xs)"
proof -
  have "length (drop_duplicates k xs) = length (map k (drop_duplicates k xs))"
    by simp
  also have "\<dots> = card (set (map k (drop_duplicates k xs)))"
    using dd_distinct [of k xs] by (simp only: distinct_card)
  also have "\<dots> = card (k ` set xs)"
    by (simp add: dd_keys)
  finally show ?thesis .
qed

lemma find_filter_weaker:
  "(\<And>y. P y \<Longrightarrow> Q y) \<Longrightarrow> find P (filter Q xs) = find P xs"
  by (induction xs) auto

lemma dd_first: "e \<in> set (drop_duplicates k xs) \<Longrightarrow> find (\<lambda>y. k y = k e) xs = Some e"
proof (induction k xs rule: drop_duplicates.induct)
  case (1 k)
  then show ?case by simp
next
  case (2 k x xs)
  show ?case
  proof (cases "e = x")
    case True
    then show ?thesis by simp
  next
    case False
    with 2 have mem: "e \<in> set (drop_duplicates k (filter (\<lambda>y. k y \<noteq> k x) xs))"
      by simp
    then have "e \<in> set (filter (\<lambda>y. k y \<noteq> k x) xs)"
      using dd_subset by fastforce
    then have ne: "k e \<noteq> k x" by simp
    from mem 2 have "find (\<lambda>y. k y = k e) (filter (\<lambda>y. k y \<noteq> k x) xs) = Some e"
      by simp
    moreover have "find (\<lambda>y. k y = k e) (filter (\<lambda>y. k y \<noteq> k x) xs) = find (\<lambda>y. k y = k e) xs"
      using ne by (intro find_filter_weaker) auto
    ultimately show ?thesis using ne by simp
  qed
qed

lemma key_enrich: "key (enrich m f v) = raw_key m"
  by (simp add: key_def enrich_def raw_key_def)

lemma merge_row_cases:
  "e \<in> set (merge_row master_df m) \<Longrightarrow> \<exists>f v. e = enrich m f v"
  by (auto simp: merge_row_def split: list.splits)

lemma merge_row_key: "e \<in> set (merge_row master_df m) \<Longrightarrow> key e = raw_key m"
  using merge_row_cases key_enrich by metis

lemma merge_row_nonempty: "merge_row master_df m \<noteq> []"
  by (simp add: merge_row_def split: list.splits)

lemma join_rows_Cons: "join_rows (m # ms) master_df = merge_row master_df m @ join_rows ms master_df"
  by (simp add: join_rows_def)

lemma join_rows_keys: "key ` set (join_rows ms master_df) = raw_key ` set ms"
proof (induction ms)
  case Nil
  show ?case by (simp add: join_rows_def)
next
  case (Cons m ms)
  have "key ` set (merge_row master_df m) = {raw_key m}"
    using merge_row_nonempty [of master_df m] merge_row_key [of _ master_df m]
    by (cases "merge_row master_df m") auto
  with Cons show ?case
    by (simp add: join_rows_Cons image_Un)
qed

lemma find_append_cases:
  "find P (xs @ ys) = (case find P xs of None \<Rightarrow> find P ys | Some x \<Rightarrow> Some x)"
  by (induction xs) auto

lemma join_rows_find:
  "find (\<lambda>y. key y = kk) (join_rows ms master_df)
     = map_option (\<lambda>m. hd (merge_row master_df m)) (find (\<lambda>m. raw_key m = kk) ms)"
proof (induction ms)
  case Nil
  show ?case by (simp add: join_rows_def)
next
  case (Cons m ms)
  show ?case
  proof (cases "raw_key m = kk")
    case True
    obtain x xs where r: "merge_row master_df m = x # xs"
      using merge_row_nonempty [of master_df m] by (cases "merge_row master_df m") auto
    then have "key x = kk"
      using merge_row_key [of x master_df m] True by simp
    with True r show ?thesis
      by (simp add: join_rows_Cons)
  next
    case False
    then have "find (\<lambda>y. key y = kk) (merge_row master_df m) = None"
      by (auto simp: find_None_iff dest: merge_row_key)
    with False Cons show ?thesis
      by (simp add: join_rows_Cons find_append_cases)
  qed
qed

lemma deduped_origin:
  assumes "e \<in> set (deduped ms master_df)"
  shows "\<exists>m\<in>set ms. raw_key m = key e \<and> e = hd (merge_row master_df m)"
proof -
  from assms have "find (\<lambda>y. key y = key e) (join_rows ms master_df) = Some e"
    by (simp add: deduped_def dd_first)
  then obtain m where "find (\<lambda>m. raw_key m = key e) ms = Some m" "e = hd (merge_row master_df m)"
    by (auto simp: join_rows_find)
  then show ?thesis
    by (auto simp: find_Some_iff)
qed

lemma deduped_keys: "key ` set (deduped ms master_df) = raw_key ` set ms"
  by (simp add: deduped_def dd_keys join_rows_keys)

lemma deduped_first_match:
  assumes "e \<in> set (deduped ms master_df)"
    and "filter (\<lambda>r. m_Abbre r = Some (Subject e)) master_df = r # rs"
  shows "Faculty e = m_Faculty r \<and> Venue e = m_Venue r"
proof -
  from assms(1) obtain m where m: "raw_key m = key e" "e = hd (merge_row master_df m)"
    using deduped_origin by blast
  then have "r_Subject m = Subject e"
    by (simp add: raw_key_def key_def)
  with assms(2) have "merge_row master_df m
      = map (\<lambda>r. enrich m (m_Faculty r) (m_Venue r)) (r # rs)"
    by (simp add: merge_row_def)
  with m(2) show ?thesis
    by (simp add: enrich_def)
qed

lemma deduped_no_match:
  assumes "e \<in> set (deduped ms master_df)"
    and "filter (\<lambda>r. m_Abbre r = Some (Subject e)) master_df = []"
  shows "Faculty e = None \<and> Venue e = None"
proof -
  from assms(1) obtain m where m: "raw_key m = key e" "e = hd (merge_row master_df m)"
    using deduped_origin by blast
  then have "r_Subject m = Subject e"
    by (simp add: raw_key_def key_def)
  with assms(2) have "merge_row master_df m = [enrich m None None]"
    by (simp add: merge_row_def)
  with m(2) show ?thesis
    by (simp add: enrich_def)
qed

lemma set_final_rows:
  "set (final_rows T to_datetime ms master_df)
     = (\<lambda>e. abbreviate_day (with_start_time T to_datetime e)) ` set (deduped ms master_df)"
  by (auto simp: final_rows_def)

lemma length_final_rows:
  "length (final_rows T to_datetime ms master_df) = card (raw_key ` set ms)"
  by (simp add: final_rows_def deduped_def dd_length join_rows_keys)

section \<open>The assembled schedule\<close>

text \<open>When the join is made: the table of matches has rows, and the master table has no
  rows or has a text in its column \<open>Abbre.\<close>.\<close>

lemma final_df_Inr_iff:
  "final_df T to_datetime ms master_df = Inr F
     \<longleftrightarrow> ms \<noteq> [] \<and> (master_df = [] \<or> (\<exists>r\<in>set master_df. m_Abbre r \<noteq> None))
          \<and> F = final_rows T to_datetime ms master_df"
  by (auto simp: final_df_def merge_left_def final_rows_def deduped_def list_all_iff)

lemma final_df_Value_Error:
  "ms \<noteq> [] \<Longrightarrow> master_df \<noteq> [] \<Longrightarrow> \<forall>r\<in>set master_df. m_Abbre r = None
     \<Longrightarrow> final_df T to_datetime ms master_df = Inl Value_Error"
  by (simp add: final_df_def merge_left_def list_all_iff)

lemma merge_left_Inr_iff:
  "merge_left ms master_df = Inr merged
     \<longleftrightarrow> ms \<noteq> [] \<and> (master_df = [] \<or> (\<exists>r\<in>set master_df. m_Abbre r \<noteq> None))
          \<and> merged = join_rows ms master_df"
  by (auto simp: merge_left_def list_all_iff)

lemma sort_by_abbreviate_day: "sort_by (abbreviate_day e) = sort_by e"
  by (simp add: sort_by_def abbreviate_day_def)

lemma sorted_final_rows: "sorted (map sort_by (final_rows T to_datetime ms master_df))"
  by (simp add: final_rows_def comp_def sort_by_abbreviate_day sorted_sort_key)

lemma sort_by_le:
  assumes "sort_by a \<le> sort_by b"
  shows "(\<forall>x y. Date a = Some x \<and> Date b = Some y \<longrightarrow> x \<le> y)
     \<and> (Date a = None \<longrightarrow> Date b = None)
     \<and> (Date a = Date b \<longrightarrow>
          (\<forall>s t. Start_Time a = Some s \<and> Start_Time b = Some t
             \<longrightarrow> hour s < hour t \<or> (hour s = hour t \<and> minute s \<le> minute t))
          \<and> (Start_Time a = None \<longrightarrow> Start_Time b = None))"
  using assms by (auto simp: sort_by_def less_eq_prod_def split: option.splits)

lemma sort_by_eq:
  "Date e = d \<and> Start_Time e = t
     \<Longrightarrow> sort_by e = ((case d of None \<Rightarrow> (1, 0) | Some x \<Rightarrow> (0, x)),
                     (case t of None \<Rightarrow> (1, 0, 0) | Some s \<Rightarrow> (0, hour s, minute s)))"
  by (auto simp: sort_by_def)

lemma stable_filter:
  assumes "\<And>x. P x \<Longrightarrow> f x = k"
  shows "filter P (sort_key f xs) = filter P xs"
proof -
  have pq: "\<And>ys. filter P ys = filter P (filter (\<lambda>y. f y = k) ys)"
    using assms by (auto intro: filter_cong)
  have "filter P (sort_key f xs) = filter P (filter (\<lambda>y. f y = k) (sort_key f xs))"
    by (rule pq)
  also have "\<dots> = filter P (filter (\<lambda>y. f y = k) xs)"
    by (simp only: sort_key_stable)
  also have "\<dots> = filter P xs"
    by (rule pq [symmetric])
  finally show ?thesis .
qed

lemma filter_join_rows:
  "filter (\<lambda>y. key y \<noteq> kk) (join_rows ms master_df)
     = join_rows (filter (\<lambda>m. raw_key m \<noteq> kk) ms) master_df"
proof (induction ms)
  case Nil
  show ?case by (simp add: join_rows_def)
next
  case (Cons m ms)
  have "filter (\<lambda>y. key y \<noteq> kk) (merge_row master_df m)
      = (if raw_key m \<noteq> kk then merge_row master_df m else [])"
    by (auto simp: filter_id_conv filter_empty_conv dest: merge_row_key)
  with Cons show ?case
    by (simp add: join_rows_Cons)
qed

lemma dd_block:
  assumes "xs \<noteq> []" and "\<forall>x\<in>set xs. k x = c"
  shows "drop_duplicates k (xs @ ys) = hd xs # drop_duplicates k (filter (\<lambda>y. k y \<noteq> c) ys)"
proof -
  from assms(1) obtain x xs' where x: "xs = x # xs'"
    by (cases xs) auto
  with assms(2) have "k x = c" "filter (\<lambda>y. k y \<noteq> c) xs' = []"
    by (auto simp: filter_empty_conv)
  with x show ?thesis
    by simp
qed

lemma deduped_order:
  "deduped (ms :: 'd raw_match list) master_df
     = map (\<lambda>m. hd (merge_row master_df m)) (drop_duplicates raw_key ms)"
proof (induction "raw_key :: 'd raw_match \<Rightarrow> _" ms rule: drop_duplicates.induct)
  case 1
  show ?case by (simp add: deduped_def join_rows_def)
next
  case (2 m ms)
  have "deduped (m # ms) master_df
      = drop_duplicates key (merge_row master_df m @ join_rows ms master_df)"
    by (simp add: deduped_def join_rows_Cons)
  also have "\<dots> = hd (merge_row master_df m)
      # drop_duplicates key (filter (\<lambda>y. key y \<noteq> raw_key m) (join_rows ms master_df))"
    using merge_row_nonempty merge_row_key by (intro dd_block) auto
  also have "\<dots> = hd (merge_row master_df m)
      # deduped (filter (\<lambda>y. raw_key y \<noteq> raw_key m) ms) master_df"
    by (simp add: filter_join_rows deduped_def)
  finally show ?case
    using 2 by simp
qed

lemma final_fields:
  "Date (abbreviate_day (with_start_time T to_datetime e)) = to_datetime (Date e)
   \<and> Day (abbreviate_day (with_start_time T to_datetime e)) = take 3 (Day e)
   \<and> Session (abbreviate_day (with_start_time T to_datetime e)) = Session e
   \<and> Subject (abbreviate_day (with_start_time T to_datetime e)) = Subject e
   \<and> Div (abbreviate_day (with_start_time T to_datetime e)) = Div e
   \<and> Faculty (abbreviate_day (with_start_time T to_datetime e)) = Faculty e
   \<and> Venue (abbreviate_day (with_start_time T to_datetime e)) = Venue e
   \<and> Start_Time (abbreviate_day (with_start_time T to_datetime e)) = extract_start_time T (Session e)"
  by (simp add: abbreviate_day_def with_start_time_def)

lemma hd_merge_row_fields:
  "Date (hd (merge_row master_df m)) = r_Date m \<and> Day (hd (merge_row master_df m)) = r_Day m
   \<and> Session (hd (merge_row master_df m)) = r_Session m
   \<and> Subject (hd (merge_row master_df m)) = r_Subject m
   \<and> Div (hd (merge_row master_df m)) = r_Div m"
  by (simp add: merge_row_def enrich_def split: list.splits)

lemma final_rows_order:
  "map key (filter (\<lambda>e. Date e = d \<and> Start_Time e = t) (final_rows T to_datetime ms master_df))
     = map (\<lambda>m. (to_datetime (r_Date m), take 3 (r_Day m), r_Session m, r_Subject m, r_Div m))
         (filter (\<lambda>m. to_datetime (r_Date m) = d \<and> extract_start_time T (r_Session m) = t)
            (drop_duplicates raw_key ms))"
proof -
  let ?P = "\<lambda>e :: (int option) timed_entry. Date e = d \<and> Start_Time e = t"
  let ?g = "\<lambda>m. abbreviate_day (with_start_time T to_datetime (hd (merge_row master_df m)))"
  let ?S = "sort_key sort_by (map (with_start_time T to_datetime) (deduped ms master_df))"
  have "filter ?P (final_rows T to_datetime ms master_df) = map abbreviate_day (filter ?P ?S)"
    by (simp add: final_rows_def filter_map comp_def abbreviate_day_def)
  also have "filter ?P ?S = filter ?P (map (with_start_time T to_datetime) (deduped ms master_df))"
    by (rule stable_filter) (rule sort_by_eq)
  finally have "filter ?P (final_rows T to_datetime ms master_df)
      = filter ?P (map ?g (drop_duplicates raw_key ms))"
    by (simp add: deduped_order filter_map comp_def abbreviate_day_def)
  then show ?thesis
    by (simp add: filter_map comp_def key_def final_fields hd_merge_row_fields)
qed

text \<open>
  Claim C4.  In the table the assembler produces the dates ascend, an entry without a
  date after those with one; within a date the start times ascend, an entry without a
  start time last; so an entry that starts at 09:00 stands before every entry of the
  same date that starts at 10:30, whatever the order of the matches was.  The entries of
  one date and start time stand in the order in which their matches first occur among
  the matches.
\<close>

theorem schedule_sorted_stable:
  assumes "final_df T to_datetime ms master_df = Inr F"
  shows "(\<forall>i j. i < j \<and> j < length F \<longrightarrow>
            (\<forall>x y. Date (F ! i) = Some x \<and> Date (F ! j) = Some y \<longrightarrow> x \<le> y)
            \<and> (Date (F ! i) = None \<longrightarrow> Date (F ! j) = None)
            \<and> (Date (F ! i) = Date (F ! j) \<longrightarrow>
                 (\<forall>s t. Start_Time (F ! i) = Some s \<and> Start_Time (F ! j) = Some t
                    \<longrightarrow> hour s < hour t \<or> (hour s = hour t \<and> minute s \<le> minute t))
                 \<and> (Start_Time (F ! i) = None \<longrightarrow> Start_Time (F ! j) = None)))
     \<and> (\<forall>i j. i < length F \<and> j < length F \<and> Date (F ! i) = Date (F ! j)
            \<and> Start_Time (F ! i) = Some \<lparr>hour = 9, minute = 0\<rparr>
            \<and> Start_Time (F ! j) = Some \<lparr>hour = 10, minute = 30\<rparr>
            \<longrightarrow> i < j)
     \<and> (\<forall>d t. map key (filter (\<lambda>e. Date e = d \<and> Start_Time e = t) F)
            = map (\<lambda>m. (to_datetime (r_Date m), take 3 (r_Day m), r_Session m, r_Subject m,
                         r_Div m))
                (filter (\<lambda>m. to_datetime (r_Date m) = d \<and> extract_start_time T (r_Session m) = t)
                   (drop_duplicates raw_key ms)))"
proof -
  from assms have F: "F = final_rows T to_datetime ms master_df"
    by (simp add: final_df_Inr_iff)
  have ordered: "\<And>i j. i < j \<Longrightarrow> j < length F \<Longrightarrow> sort_by (F ! i) \<le> sort_by (F ! j)"
  proof -
    fix i j :: nat
    assume "i < j" "j < length F"
    then have "map sort_by F ! i \<le> map sort_by F ! j"
      using sorted_final_rows [of T to_datetime ms master_df]
      by (simp add: F sorted_iff_nth_mono del: nth_map)
    with \<open>i < j\<close> \<open>j < length F\<close> show "sort_by (F ! i) \<le> sort_by (F ! j)"
      by simp
  qed
  have first: "\<forall>i j. i < j \<and> j < length F \<longrightarrow>
            (\<forall>x y. Date (F ! i) = Some x \<and> Date (F ! j) = Some y \<longrightarrow> x \<le> y)
            \<and> (Date (F ! i) = None \<longrightarrow> Date (F ! j) = None)
            \<and> (Date (F ! i) = Date (F ! j) \<longrightarrow>
                 (\<forall>s t. Start_Time (F ! i) = Some s \<and> Start_Time (F ! j) = Some t
                    \<longrightarrow> hour s < hour t \<or> (hour s = hour t \<and> minute s \<le> minute t))
                 \<and> (Start_Time (F ! i) = None \<longrightarrow> Start_Time (F ! j) = None))"
    using ordered sort_by_le by blast
  have second: "\<forall>i j. i < length F \<and> j < length F \<and> Date (F ! i) = Date (F ! j)
            \<and> Start_Time (F ! i) = Some \<lparr>hour = 9, minute = 0\<rparr>
            \<and> Start_Time (F ! j) = Some \<lparr>hour = 10, minute = 30\<rparr>
            \<longrightarrow> i < j"
  proof (intro allI impI)
    fix i j
    assume h: "i < length F \<and> j < length F \<and> Date (F ! i) = Date (F ! j)
            \<and> Start_Time (F ! i) = Some \<lparr>hour = 9, minute = 0\<rparr>
            \<and> Start_Time (F ! j) = Some \<lparr>hour = 10, minute = 30\<rparr>"
    show "i < j"
    proof (rule ccontr)
      assume "\<not> i < j"
      then consider "i = j" | "j < i" by linarith
      then show False
      proof cases
        case 1
        with h have "Some \<lparr>hour = 9, minute = 0\<rparr> = Some \<lparr>hour = 10, minute = (30 :: nat)\<rparr>"
          by metis
        then show False by simp
      next
        case 2
        with h have "sort_by (F ! j) \<le> sort_by (F ! i)"
          using ordered by blast
        with h show False
          by (simp add: sort_by_def less_eq_prod_def)
      qed
    qed
  qed
  have third: "\<forall>d t. map key (filter (\<lambda>e. Date e = d \<and> Start_Time e = t) F)
            = map (\<lambda>m. (to_datetime (r_Date m), take 3 (r_Day m), r_Session m, r_Subject m,
                         r_Div m))
                (filter (\<lambda>m. to_datetime (r_Date m) = d \<and> extract_start_time T (r_Session m) = t)
                   (drop_duplicates raw_key ms))"
    by (simp only: F final_rows_order) simp
  from first second third show ?thesis
    by blast
qed

lemma distinct_map_sort_key: "distinct (map h (sort_key f xs)) = distinct (map h xs)"
  by (simp add: distinct_map)

lemma key_final:
  "key (abbreviate_day (with_start_time T to_datetime e))
     = (to_datetime (Date e), take 3 (Day e), Session e, Subject e, Div e)"
  by (simp add: key_def final_fields)

lemma final_keys_distinct:
  assumes "\<forall>a\<in>set ms. \<forall>b\<in>set ms.
      to_datetime (r_Date a) = to_datetime (r_Date b) \<and> take 3 (r_Day a) = take 3 (r_Day b)
      \<longrightarrow> r_Date a = r_Date b \<and> r_Day a = r_Day b"
  shows "distinct (map key (final_rows T to_datetime ms master_df))"
proof -
  define g where "g = (\<lambda>e :: 'a entry. abbreviate_day (with_start_time T to_datetime e))"
  let ?D = "deduped ms master_df"
  have "inj_on (\<lambda>e. key (g e)) (set ?D)"
  proof (rule inj_onI)
    fix x y
    assume x: "x \<in> set ?D" and y: "y \<in> set ?D" and eq: "key (g x) = key (g y)"
    from x obtain a where a: "a \<in> set ms" "raw_key a = key x"
      using deduped_keys [of ms master_df] by (metis imageE imageI)
    from y obtain b where b: "b \<in> set ms" "raw_key b = key y"
      using deduped_keys [of ms master_df] by (metis imageE imageI)
    from eq have parts: "to_datetime (Date x) = to_datetime (Date y)" "take 3 (Day x) = take 3 (Day y)"
        "Session x = Session y" "Subject x = Subject y" "Div x = Div y"
      by (simp_all add: g_def key_final)
    from a b have ab: "r_Date a = Date x" "r_Day a = Day x" "r_Date b = Date y" "r_Day b = Day y"
      by (simp_all add: raw_key_def key_def)
    with parts a(1) b(1) assms have "Date x = Date y \<and> Day x = Day y"
      by metis
    with parts have "key x = key y"
      by (simp add: key_def)
    moreover have "inj_on key (set ?D)"
      using dd_distinct [of key "join_rows ms master_df"]
      by (simp add: deduped_def distinct_map)
    ultimately show "x = y"
      using x y by (simp add: inj_on_def)
  qed
  moreover have "distinct ?D"
    using dd_distinct [of key "join_rows ms master_df"]
    by (simp add: deduped_def distinct_map)
  ultimately have "distinct (map (\<lambda>e. key (g e)) ?D)"
    by (simp add: distinct_map)
  moreover have "map key (final_rows T to_datetime ms master_df)
      = map (\<lambda>e. key (abbreviate_day e)) (sort_key sort_by (map (with_start_time T to_datetime) ?D))"
    by (simp add: final_rows_def)
  ultimately show ?thesis
    by (simp add: distinct_map_sort_key g_def comp_def)
qed


text \<open>
  Claim C6.  Whenever the master table has rows for the subject of an entry of the
  table produced, the entry's faculty and venue are those of the first such row; the
  table has exactly one entry for every deduplication key among the matches, the keys
  after line 102 being pairwise different; and a table is produced whenever there are
  matches and the master table has a text in \<open>Abbre.\<close>.
\<close>

theorem first_master_row_wins:
  "(final_df T to_datetime ms master_df = Inr F \<longrightarrow>
      (\<forall>e\<in>set F. \<forall>r rs.
          filter (\<lambda>r. m_Abbre r = Some (Subject e)) master_df = r # rs
          \<longrightarrow> Faculty e = m_Faculty r \<and> Venue e = m_Venue r)
      \<and> merge_left ms master_df = Inr (join_rows ms master_df)
      \<and> length F = card (raw_key ` set ms))
   \<and> distinct (map key (deduped ms master_df))
   \<and> (ms \<noteq> [] \<and> (\<exists>r\<in>set master_df. m_Abbre r \<noteq> None)
        \<longrightarrow> (\<exists>F. final_df T to_datetime ms master_df = Inr F))"
proof (intro conjI impI ballI allI)
  assume a: "final_df T to_datetime ms master_df = Inr F"
  then have F: "F = final_rows T to_datetime ms master_df"
    by (simp add: final_df_Inr_iff)
  from a show "merge_left ms master_df = Inr (join_rows ms master_df)"
    by (simp add: final_df_Inr_iff merge_left_Inr_iff)
  show "length F = card (raw_key ` set ms)"
    by (simp add: F length_final_rows)
  fix e r rs
  assume e: "e \<in> set F"
    and f: "filter (\<lambda>r. m_Abbre r = Some (Subject e)) master_df = r # rs"
  from e obtain d where d: "d \<in> set (deduped ms master_df)"
      "e = abbreviate_day (with_start_time T to_datetime d)"
    by (auto simp: F set_final_rows)
  with f have "filter (\<lambda>r. m_Abbre r = Some (Subject d)) master_df = r # rs"
    by (simp add: final_fields)
  with d(1) have "Faculty d = m_Faculty r \<and> Venue d = m_Venue r"
    by (rule deduped_first_match)
  with d(2) show "Faculty e = m_Faculty r" "Venue e = m_Venue r"
    by (simp_all add: final_fields)
next
  show "distinct (map key (deduped ms master_df))"
    by (simp add: deduped_def dd_distinct)
next
  assume "ms \<noteq> [] \<and> (\<exists>r\<in>set master_df. m_Abbre r \<noteq> None)"
  then show "\<exists>F. final_df T to_datetime ms master_df = Inr F"
    by (simp add: final_df_Inr_iff)
qed

text \<open>
  Claim C7, as the code has it.  For a match whose subject is no abbreviation of the
  master table: when the master table has no rows, or has a text in its column
  \<open>Abbre.\<close>, a table is produced and holds the entry of the match, with nothing for
  faculty and venue; when the master table has rows and no text in \<open>Abbre.\<close>, the
  join raises \<open>ValueError\<close>.
\<close>

theorem unmatched_subject_kept:
  assumes "m \<in> set ms"
    and "\<forall>r\<in>set master_df. m_Abbre r \<noteq> Some (r_Subject m)"
  shows "(master_df = [] \<or> (\<exists>r\<in>set master_df. m_Abbre r \<noteq> None) \<longrightarrow>
            (\<exists>F. final_df T to_datetime ms master_df = Inr F
               \<and> (\<exists>e\<in>set F.
                     Date e = to_datetime (r_Date m) \<and> Day e = take 3 (r_Day m)
                     \<and> Session e = r_Session m \<and> Subject e = r_Subject m \<and> Div e = r_Div m
                     \<and> Faculty e = None \<and> Venue e = None)))
     \<and> (master_df \<noteq> [] \<and> (\<forall>r\<in>set master_df. m_Abbre r = None) \<longrightarrow>
            final_df T to_datetime ms master_df = Inl Value_Error)"
proof (intro conjI impI)
  from assms(1) have ne: "ms \<noteq> []"
    by auto
  {
    assume "master_df \<noteq> [] \<and> (\<forall>r\<in>set master_df. m_Abbre r = None)"
    with ne show "final_df T to_datetime ms master_df = Inl Value_Error"
      by (simp add: final_df_Value_Error)
  }
  assume ok: "master_df = [] \<or> (\<exists>r\<in>set master_df. m_Abbre r \<noteq> None)"
  with ne have F: "final_df T to_datetime ms master_df = Inr (final_rows T to_datetime ms master_df)"
    by (simp add: final_df_Inr_iff)
  from assms(1) have "raw_key m \<in> key ` set (deduped ms master_df)"
    by (simp add: deduped_keys)
  then obtain d where d: "d \<in> set (deduped ms master_df)" "key d = raw_key m"
    by auto
  then have same: "Date d = r_Date m" "Day d = r_Day m" "Session d = r_Session m"
      "Subject d = r_Subject m" "Div d = r_Div m"
    by (simp_all add: key_def raw_key_def)
  from assms(2) same have "filter (\<lambda>r. m_Abbre r = Some (Subject d)) master_df = []"
    by (simp add: filter_empty_conv)
  with d(1) have none: "Faculty d = None \<and> Venue d = None"
    by (rule deduped_no_match)
  let ?e = "abbreviate_day (with_start_time T to_datetime d)"
  from d(1) have "?e \<in> set (final_rows T to_datetime ms master_df)"
    by (simp add: set_final_rows)
  moreover have "Date ?e = to_datetime (r_Date m) \<and> Day ?e = take 3 (r_Day m)
           \<and> Session ?e = r_Session m \<and> Subject ?e = r_Subject m \<and> Div ?e = r_Div m
           \<and> Faculty ?e = None \<and> Venue ?e = None"
    using same none by (simp add: final_fields)
  ultimately show "\<exists>F. final_df T to_datetime ms master_df = Inr F
               \<and> (\<exists>e\<in>set F.
                     Date e = to_datetime (r_Date m) \<and> Day e = take 3 (r_Day m)
                     \<and> Session e = r_Session m \<and> Subject e = r_Subject m \<and> Div e = r_Div m
                     \<and> Faculty e = None \<and> Venue e = None)"
    using F by blast
qed

text \<open>
  Claim C5, as the code has it.  Right after line 102 no two entries share the key
  (Date, Day, Session, Subject, Div), every entry is the first of the joined table with
  its key, and dropping duplicates again changes nothing; the table produced has as
  many entries.  Its own keys are taken after the dates are coerced and the day names
  are cut to three letters: they are pairwise different, and dropping duplicates from
  the table produced changes nothing, when no two matches with different (Date, Day)
  agree on the coerced date and the three letters.
\<close>

theorem dedup_unique_idempotent:
  "distinct (map key (deduped ms master_df))
   \<and> (\<forall>e\<in>set (deduped ms master_df).
         find (\<lambda>y. key y = key e) (join_rows ms master_df) = Some e)
   \<and> drop_duplicates key (deduped ms master_df) = deduped ms master_df
   \<and> (final_df T to_datetime ms master_df = Inr F \<longrightarrow>
        merge_left ms master_df = Inr (join_rows ms master_df)
        \<and> length F = length (deduped ms master_df)
        \<and> ((\<forall>a\<in>set ms. \<forall>b\<in>set ms.
               to_datetime (r_Date a) = to_datetime (r_Date b)
               \<and> take 3 (r_Day a) = take 3 (r_Day b)
               \<longrightarrow> r_Date a = r_Date b \<and> r_Day a = r_Day b)
             \<longrightarrow> distinct (map key F) \<and> drop_duplicates key F = F))"
proof (intro conjI ballI impI)
  show d: "distinct (map key (deduped ms master_df))"
    by (simp add: deduped_def dd_distinct)
  then show "drop_duplicates key (deduped ms master_df) = deduped ms master_df"
    by (rule dd_id)
next
  fix e
  assume "e \<in> set (deduped ms master_df)"
  then show "find (\<lambda>y. key y = key e) (join_rows ms master_df) = Some e"
    by (simp add: deduped_def dd_first)
next
  assume a: "final_df T to_datetime ms master_df = Inr F"
  then have F: "F = final_rows T to_datetime ms master_df"
    by (simp add: final_df_Inr_iff)
  from a show "merge_left ms master_df = Inr (join_rows ms master_df)"
    by (simp add: final_df_Inr_iff merge_left_Inr_iff)
  show "length F = length (deduped ms master_df)"
    by (simp add: F final_rows_def)
  assume h: "\<forall>a\<in>set ms. \<forall>b\<in>set ms.
               to_datetime (r_Date a) = to_datetime (r_Date b)
               \<and> take 3 (r_Day a) = take 3 (r_Day b)
               \<longrightarrow> r_Date a = r_Date b \<and> r_Day a = r_Day b"
  then show d: "distinct (map key F)"
    unfolding F by (rule final_keys_distinct)
  then show "drop_duplicates key F = F"
    by (rule dd_id)
qed

lemmas table_eval = final_df_def merge_left_def join_rows_def merge_row_def enrich_def
  with_start_time_def key_def abbreviate_day_def sort_by_def less_eq_prod_def less_prod_def
  example_match_def ascii_tables_def subject_code_def div_code_def

text \<open>Two matches that differ in the spelling of the day only, \<open>Monday\<close> and \<open>Mon\<close>,
  both stay, and share their key in the table produced.\<close>

theorem dedup_counterexample:
  "(case final_df ascii_tables Some
         [example_match 1 ''Monday'' ''09:00AM'' ''CS101_A'',
          example_match 1 ''Mon'' ''09:00AM'' ''CS101_A''] []
    of Inl e \<Rightarrow> None | Inr F \<Rightarrow> Some (distinct (map key F))) = Some False"
  by (simp add: table_eval text_eval time_eval)

text \<open>A master table whose only abbreviation is a number: the subject \<open>101\<close> of the
  match is no abbreviation of it, and the join raises.\<close>

theorem unmatched_subject_error:
  "final_df ascii_tables Some [example_match 1 ''Monday'' ''09:00AM'' ''101'']
       [\<lparr>m_Abbre = None, m_Faculty = Some (u ''Rao''), m_Venue = Some (u ''R1'')\<rparr>]
     = Inl Value_Error"
  by (simp add: table_eval text_eval)

theorem schedule_sorted_stable_witness:
  "map_sum id (map (\<lambda>e. (Date e, Start_Time e, Subject e)))
     (final_df ascii_tables Some
        [example_match 2 ''Tuesday'' ''09:00AM'' ''MA201'',
         example_match 1 ''Monday'' ''10:30AM'' ''CS101_A'',
         example_match 1 ''Monday'' ''09:00AM'' ''PH101''] [])
     = Inr [(Some 1, Some \<lparr>hour = 9, minute = 0\<rparr>, u ''PH101''),
            (Some 1, Some \<lparr>hour = 10, minute = 30\<rparr>, u ''CS101''),
            (Some 2, Some \<lparr>hour = 9, minute = 0\<rparr>, u ''MA201'')]
   \<and> (0 :: nat) < 1 \<and> (1 :: int) \<le> 2"
proof -
  let ?ms = "[example_match 2 ''Tuesday'' ''09:00AM'' ''MA201'',
         example_match 1 ''Monday'' ''10:30AM'' ''CS101_A'',
         example_match 1 ''Monday'' ''09:00AM'' ''PH101'']"
  obtain F where F: "final_df ascii_tables Some ?ms [] = Inr F"
    by (simp add: final_df_Inr_iff)
  note inst = schedule_sorted_stable [OF F]
  from F have ev: "map (\<lambda>e. (Date e, Start_Time e, Subject e)) F
     = [(Some 1, Some \<lparr>hour = 9, minute = 0\<rparr>, u ''PH101''),
        (Some 1, Some \<lparr>hour = 10, minute = 30\<rparr>, u ''CS101''),
        (Some 2, Some \<lparr>hour = 9, minute = 0\<rparr>, u ''MA201'')]"
    by (auto simp: table_eval text_eval time_eval)
  from F have hyp: "0 < length F \<and> 1 < length F \<and> Date (F ! 0) = Date (F ! 1)
      \<and> Start_Time (F ! 0) = Some \<lparr>hour = 9, minute = 0\<rparr>
      \<and> Start_Time (F ! 1) = Some \<lparr>hour = 10, minute = 30\<rparr>"
    by (auto simp: table_eval text_eval time_eval)
  from F have hyp2: "(1 :: nat) < 2 \<and> 2 < length F \<and> Date (F ! 1) = Some 1 \<and> Date (F ! 2) = Some 2"
    by (auto simp: table_eval text_eval time_eval)
  from inst hyp have order: "(0 :: nat) < 1"
    by blast
  from inst hyp2 have dates: "(1 :: int) \<le> 2"
    by blast
  from order dates ev show ?thesis
    by (simp add: F)
qed

theorem dedup_unique_idempotent_witness:
  "map_sum id (\<lambda>F. (distinct (map key F), drop_duplicates key F = F, length F))
     (final_df ascii_tables Some
       [example_match 1 ''Monday'' ''10:30AM'' ''CS101_A'',
        example_match 1 ''Monday'' ''09:00AM'' ''MA201'',
        example_match 1 ''Monday'' ''10:30AM'' ''CS101_A''] [])
     = Inr (True, True, 2)"
proof -
  let ?ms = "[example_match 1 ''Monday'' ''10:30AM'' ''CS101_A'',
        example_match 1 ''Monday'' ''09:00AM'' ''MA201'',
        example_match 1 ''Monday'' ''10:30AM'' ''CS101_A'']"
  obtain F where F: "final_df ascii_tables Some ?ms [] = Inr F"
    by (simp add: final_df_Inr_iff)
  note inst = dedup_unique_idempotent [of ?ms "[]" ascii_tables Some F]
  have hyp: "\<forall>a\<in>set ?ms. \<forall>b\<in>set ?ms.
      Some (r_Date a) = Some (r_Date b) \<and> take 3 (r_Day a) = take 3 (r_Day b)
      \<longrightarrow> r_Date a = r_Date b \<and> r_Day a = r_Day b"
    by (simp add: example_match_def u_def)
  have len: "length (deduped ?ms []) = 2"
    by (simp add: deduped_def table_eval text_eval)
  from inst F hyp have "distinct (map key F) \<and> drop_duplicates key F = F"
    by blast
  moreover from inst F have "length F = length (deduped ?ms [])"
    by blast
  ultimately show ?thesis
    using len by (simp add: F)
qed

theorem first_master_row_wins_witness:
  "map_sum id (map (\<lambda>e. (Faculty e, Venue e)))
     (final_df ascii_tables Some [example_match 1 ''Monday'' ''09:00AM'' ''CS101_A'']
       [\<lparr>m_Abbre = Some (u ''CS101''), m_Faculty = Some (u ''Rao''), m_Venue = Some (u ''R1'')\<rparr>,
        \<lparr>m_Abbre = Some (u ''CS101''), m_Faculty = Some (u ''Iyer''), m_Venue = Some (u ''R2'')\<rparr>])
     = Inr [(Some (u ''Rao''), Some (u ''R1''))]"
proof -
  let ?ms = "[example_match 1 ''Monday'' ''09:00AM'' ''CS101_A'']"
  let ?r1 = "\<lparr>m_Abbre = Some (u ''CS101''), m_Faculty = Some (u ''Rao''), m_Venue = Some (u ''R1'')\<rparr>"
  let ?r2 = "\<lparr>m_Abbre = Some (u ''CS101''), m_Faculty = Some (u ''Iyer''), m_Venue = Some (u ''R2'')\<rparr>"
  obtain F where F: "final_df ascii_tables Some ?ms [?r1, ?r2] = Inr F"
    by (simp add: final_df_Inr_iff)
  note inst = first_master_row_wins [of ascii_tables Some ?ms "[?r1, ?r2]" F]
  from inst F have len: "length F = 1"
    by (simp add: example_match_def)
  then obtain e where Fe: "F = [e]"
    by (cases F) auto
  from F have "map Subject F = [u ''CS101'']"
    by (auto simp: table_eval text_eval time_eval)
  with Fe have "Subject e = u ''CS101''"
    by simp
  then have "filter (\<lambda>r. m_Abbre r = Some (Subject e)) [?r1, ?r2] = ?r1 # [?r2]"
    by simp
  moreover from Fe have "e \<in> set F"
    by simp
  ultimately have "Faculty e = m_Faculty ?r1 \<and> Venue e = m_Venue ?r1"
    using inst F by blast
  with Fe show ?thesis
    by (simp add: F)
qed

theorem unmatched_subject_kept_witness:
  "\<exists>F. final_df ascii_tables Some [example_match 1 ''Monday'' ''09:00AM'' ''XY999'']
       [\<lparr>m_Abbre = Some (u ''CS101''), m_Faculty = Some (u ''Rao''), m_Venue = Some (u ''R1'')\<rparr>]
       = Inr F
     \<and> (\<exists>e\<in>set F. Date e = Some 1 \<and> Day e = u ''Mon'' \<and> Session e = u ''09:00AM''
           \<and> Subject e = u ''XY999'' \<and> Div e = [] \<and> Faculty e = None \<and> Venue e = None)"
proof -
  let ?m = "example_match 1 ''Monday'' ''09:00AM'' ''XY999''"
  let ?master = "[\<lparr>m_Abbre = Some (u ''CS101''), m_Faculty = Some (u ''Rao''), m_Venue = Some (u ''R1'')\<rparr>]"
  have h1: "?m \<in> set [?m]"
    by simp
  have h2: "\<forall>r\<in>set ?master. m_Abbre r \<noteq> Some (r_Subject ?m)"
    by (simp add: example_match_def subject_code_def u_def)
  have h3: "?master = [] \<or> (\<exists>r\<in>set ?master. m_Abbre r \<noteq> None)"
    by simp
  have fields: "r_Date ?m = 1" "take 3 (r_Day ?m) = u ''Mon''" "r_Session ?m = u ''09:00AM''"
      "r_Subject ?m = u ''XY999''" "r_Div ?m = []"
    by (simp_all add: example_match_def subject_code_def div_code_def u_def)
  from unmatched_subject_kept [OF h1 h2, of ascii_tables Some] h3
  have "\<exists>F. final_df ascii_tables Some [?m] ?master = Inr F
      \<and> (\<exists>e\<in>set F. Date e = Some (r_Date ?m) \<and> Day e = take 3 (r_Day ?m)
            \<and> Session e = r_Session ?m \<and> Subject e = r_Subject ?m \<and> Div e = r_Div ?m
            \<and> Faculty e = None \<and> Venue e = None)"
    by blast
  then show ?thesis
    by (simp only: fields)
qed

end
